theory Spec2Isabelle
  imports Main
begin

section \<open>Data model\<close>

text \<open>
  The development follows \<^verbatim>\<open>src/lib/core/bot/components.ts\<close>.

  An interaction is read at two fields only, \<^verbatim>\<open>interaction.data.component_type\<close>
  and \<^verbatim>\<open>interaction.data.custom_id\<close>. A modal submission carries no
  \<^verbatim>\<open>component_type\<close>: reading it gives \<^verbatim>\<open>undefined\<close>, which is \<open>None\<close> here.
  Strings are byte lists; the separators the source splits on are ASCII, and names are
  only compared for equality, so the encoding of other characters does not matter.
\<close>

record interaction_data =
  component_type :: "int option"
  custom_id :: string

record interaction =
  data :: interaction_data

text \<open>
  An entry of the directory walk (\<^verbatim>\<open>WalkEntry\<close> of \<^verbatim>\<open>@std/fs/walk\<close>): the source
  reads its \<^verbatim>\<open>path\<close> and its \<^verbatim>\<open>name\<close>, the last segment of the path.
\<close>

record walk_entry =
  path :: string
  name :: string

text \<open>
  A registry entry (\<^verbatim>\<open>Component\<close> in the source): the fields \<^verbatim>\<open>name\<close>,
  \<^verbatim>\<open>category\<close> and \<^verbatim>\<open>default\<close>. The callback is a JavaScript function value;
  it is kept as a reference of type \<open>'cb\<close>, and what a call of it does is given by a
  separate \<open>call\<close> function (see \<open>runComponent\<close>).
\<close>

record 'cb component =
  name :: string
  category :: string
  default :: 'cb

text \<open>
  What \<^verbatim>\<open>component.default(interaction)\<close> can do: return a plain value, throw,
  or return a promise that is fulfilled, is rejected, or never settles.
\<close>

datatype 'e outcome =
    Value
  | Throws 'e
  | PromiseFulfilled
  | PromiseRejected 'e
  | PromisePending

text \<open>The state of the promise an \<^verbatim>\<open>async\<close> function returns.\<close>

datatype 'e completion =
    Resolved
  | Rejected 'e
  | Pending

text \<open>
  Modelled from the spec: the loader of \<^verbatim>\<open>src/lib/internal/loader.ts\<close> is not among the
  sources; the spec calls it command-line presentation whose output is informational
  only. Creating a loader (\<open>LoaderStart\<close>) and calling its \<^verbatim>\<open>resolve\<close> or \<^verbatim>\<open>error\<close>
  method (\<open>LoaderResolve\<close>, \<open>LoaderError\<close>) are therefore events that always complete,
  named by the text the loader was created with.

  The other events are the calls of \<^verbatim>\<open>console.warn\<close>, \<^verbatim>\<open>console.log\<close> and
  \<^verbatim>\<open>console.error\<close> and the call of a component's callback on an interaction. A
  list of events is in the order the code performs them.
\<close>

datatype ('cb, 'e) event =
    ConsoleWarn string
  | ConsoleLog string
  | ConsoleError string 'e
  | LoaderStart string
  | LoaderResolve string
  | LoaderError string
  | Invoke "'cb component" interaction

section \<open>The category of an interaction\<close>

text \<open>
  The members of \<^verbatim>\<open>ComponentType\<close> (package \<^verbatim>\<open>discord-api-types/v10\<close>) that the
  source names, with the values of the Discord API; \<^verbatim>\<open>button.ts\<close> fixes the button
  kind to 2 as well.
\<close>

definition ComponentType_Button :: int where
  "ComponentType_Button = 2"

definition ComponentType_StringSelect :: int where
  "ComponentType_StringSelect = 3"

definition ComponentType_UserSelect :: int where
  "ComponentType_UserSelect = 5"

definition ComponentType_RoleSelect :: int where
  "ComponentType_RoleSelect = 6"

definition ComponentType_MentionableSelect :: int where
  "ComponentType_MentionableSelect = 7"

definition ComponentType_ChannelSelect :: int where
  "ComponentType_ChannelSelect = 8"

text \<open>
  \<^verbatim>\<open>getCategory\<close> is a \<^verbatim>\<open>switch\<close> on
  \<^verbatim>\<open>interaction.data.component_type\<close>; \<^verbatim>\<open>undefined\<close> matches no \<^verbatim>\<open>case\<close> and
  falls to \<^verbatim>\<open>default\<close>.
\<close>

definition getCategory :: "interaction \<Rightarrow> string" where
  "getCategory interaction =
     (case component_type (data interaction) of
        None \<Rightarrow> ''modals''
      | Some t \<Rightarrow>
          if t = ComponentType_Button then ''buttons''
          else if t = ComponentType_ChannelSelect
                \<or> t = ComponentType_RoleSelect
                \<or> t = ComponentType_UserSelect
                \<or> t = ComponentType_StringSelect
                \<or> t = ComponentType_MentionableSelect then ''selects''
          else ''modals'')"

definition validComponentCategories :: "string list" where
  "validComponentCategories = [''buttons'', ''modals'', ''selects'']"

section \<open>The dispatcher\<close>

text \<open>
  \<^verbatim>\<open>yellow\<close> and \<^verbatim>\<open>underline\<close> of \<^verbatim>\<open>@std/fmt/colors\<close> wrap a text in terminal
  colour codes, or return it unchanged when colour is switched off. The messages below
  are the texts without colour codes.
\<close>

definition notFoundMessage :: "string \<Rightarrow> string" where
  "notFoundMessage cid = '' ! Component \"'' @ cid @ ''\" not found''"

definition runningMessage :: "string \<Rightarrow> string" where
  "runningMessage n = ''Running component \"'' @ n @ ''\"''"

text \<open>The second argument of \<^verbatim>\<open>console.error\<close> is the caught value; the first is a
  space and the corner sign U+2514, here in UTF-8.\<close>

definition errorPrefix :: string where
  "errorPrefix = [CHR '' '', CHR 0xE2, CHR 0x94, CHR 0x94]"

text \<open>\<^verbatim>\<open>components.find\<close> with the predicate of lines 77 to 79.\<close>

definition findComponent :: "'cb component list \<Rightarrow> interaction \<Rightarrow> 'cb component option" where
  "findComponent components interaction =
     (let category' = getCategory interaction
      in find (\<lambda>c. name c = custom_id (data interaction) \<and> category c = category') components)"

text \<open>
  \<^verbatim>\<open>runComponent\<close>, the function \<^verbatim>\<open>setupComponents\<close> returns. \<open>call\<close> gives the
  behaviour of a callback on an interaction in a state \<open>w\<close> of the application; the
  result is the state of the returned promise, the effects, and the application state.

  A synchronous throw and a rejected promise both reach the \<^verbatim>\<open>catch\<close> block, a plain
  value and a fulfilled promise both pass \<^verbatim>\<open>await Promise.resolve(...)\<close>, and a
  promise that never settles leaves \<^verbatim>\<open>runComponent\<close> suspended at that \<^verbatim>\<open>await\<close>.
\<close>

definition runComponent ::
  "('cb \<Rightarrow> interaction \<Rightarrow> 'w \<Rightarrow> 'e outcome \<times> 'w) \<Rightarrow> 'cb component list \<Rightarrow>
     interaction \<Rightarrow> 'w \<Rightarrow> 'e completion \<times> ('cb, 'e) event list \<times> 'w" where
  "runComponent call components interaction w =
     (case findComponent components interaction of
        None \<Rightarrow>
          (Resolved, [ConsoleWarn (notFoundMessage (custom_id (data interaction)))], w)
      | Some component \<Rightarrow>
          (let m = runningMessage (name component);
               started = [LoaderStart m, Invoke component interaction]
           in case call (default component) interaction w of
                (Value, w') \<Rightarrow> (Resolved, started @ [LoaderResolve m], w')
              | (PromiseFulfilled, w') \<Rightarrow> (Resolved, started @ [LoaderResolve m], w')
              | (Throws error, w') \<Rightarrow>
                  (Resolved, started @ [LoaderError m, ConsoleError errorPrefix error], w')
              | (PromiseRejected error, w') \<Rightarrow>
                  (Resolved, started @ [LoaderError m, ConsoleError errorPrefix error], w')
              | (PromisePending, w') \<Rightarrow> (Pending, started, w')))"

text \<open>
  A caller that hands a list of interactions to the dispatcher one after the other,
  awaiting each call: it goes on to the next interaction when the promise is resolved,
  and stops at a promise that is rejected, since the rejection is thrown at the
  \<^verbatim>\<open>await\<close>, or that never settles.
\<close>

fun dispatchAll ::
  "(interaction \<Rightarrow> 'w \<Rightarrow> 'e completion \<times> ('cb, 'e) event list \<times> 'w) \<Rightarrow>
     interaction list \<Rightarrow> 'w \<Rightarrow> ('e completion \<times> ('cb, 'e) event list) list \<times> 'w" where
  "dispatchAll run [] w = ([], w)"
| "dispatchAll run (i # rest) w =
     (case run i w of
        (Resolved, log, w') \<Rightarrow>
          (case dispatchAll run rest w' of
             (results, w'') \<Rightarrow> ((Resolved, log) # results, w''))
      | (Rejected e, log, w') \<Rightarrow> ([(Rejected e, log)], w')
      | (Pending, log, w') \<Rightarrow> ([(Pending, log)], w'))"

subsection \<open>Overlapping invocations\<close>

text \<open>
  \<^verbatim>\<open>runComponent\<close> is an \<^verbatim>\<open>async\<close> function: a call runs without interruption up to
  its first \<^verbatim>\<open>await\<close>, and each later stretch between two \<^verbatim>\<open>await\<close>s runs without
  interruption when the awaited promise has settled. Between two stretches of one
  invocation, stretches of other invocations may run. The points where an invocation
  can be suspended are line 91 (awaiting the result of the callback), line 92 (awaiting
  \<^verbatim>\<open>componentLoader.resolve()\<close>) and line 94 (awaiting \<^verbatim>\<open>componentLoader.error()\<close>);
  \<open>Settled\<close> is an invocation whose own promise has settled.
\<close>

datatype ('cb, 'e) continuation =
    AwaitCallback "'cb component" "'e outcome"
  | AwaitLoaderResolve
  | AwaitLoaderError 'e
  | Settled "'e completion"

text \<open>
  The first stretch: from the call to the first \<^verbatim>\<open>await\<close> or to the \<^verbatim>\<open>return\<close> of
  line 85. A callback that throws leads straight into the \<^verbatim>\<open>catch\<close> block, where
  \<^verbatim>\<open>componentLoader.error()\<close> is called and awaited. The effects of the callback on
  the application state are all placed at the call.
\<close>

definition startComponent ::
  "('cb \<Rightarrow> interaction \<Rightarrow> 'w \<Rightarrow> 'e outcome \<times> 'w) \<Rightarrow> 'cb component list \<Rightarrow>
     interaction \<Rightarrow> 'w \<Rightarrow> ('cb, 'e) continuation \<times> ('cb, 'e) event list \<times> 'w" where
  "startComponent call components interaction w =
     (case findComponent components interaction of
        None \<Rightarrow>
          (Settled Resolved,
           [ConsoleWarn (notFoundMessage (custom_id (data interaction)))], w)
      | Some component \<Rightarrow>
          (let m = runningMessage (name component);
               started = [LoaderStart m, Invoke component interaction]
           in case call (default component) interaction w of
                (Throws error, w') \<Rightarrow> (AwaitLoaderError error, started @ [LoaderError m], w')
              | (result, w') \<Rightarrow> (AwaitCallback component result, started, w')))"

text \<open>
  The stretch that follows a suspension. An invocation that awaits a promise which
  never settles is never resumed: resuming it leaves it where it is. \<open>AwaitCallback\<close>
  with \<open>Throws\<close> is not produced by \<open>startComponent\<close>.
\<close>

fun resumeComponent ::
  "('cb, 'e) continuation \<Rightarrow> ('cb, 'e) continuation \<times> ('cb, 'e) event list" where
  "resumeComponent (AwaitCallback component Value) =
     (AwaitLoaderResolve, [LoaderResolve (runningMessage (name component))])"
| "resumeComponent (AwaitCallback component PromiseFulfilled) =
     (AwaitLoaderResolve, [LoaderResolve (runningMessage (name component))])"
| "resumeComponent (AwaitCallback component (PromiseRejected error)) =
     (AwaitLoaderError error, [LoaderError (runningMessage (name component))])"
| "resumeComponent (AwaitCallback component (Throws error)) =
     (AwaitLoaderError error, [LoaderError (runningMessage (name component))])"
| "resumeComponent (AwaitCallback component PromisePending) =
     (AwaitCallback component PromisePending, [])"
| "resumeComponent AwaitLoaderResolve = (Settled Resolved, [])"
| "resumeComponent (AwaitLoaderError error) =
     (Settled Resolved, [ConsoleError errorPrefix error])"
| "resumeComponent (Settled c) = (Settled c, [])"

text \<open>The state of the promise of an invocation.\<close>

definition completionOf :: "('cb, 'e) continuation \<Rightarrow> 'e completion" where
  "completionOf k = (case k of Settled c \<Rightarrow> c | _ \<Rightarrow> Pending)"

text \<open>
  The runtime holds the invocations in flight, in the order of their arrival, the
  console output, each entry tagged with the number of the invocation that printed it,
  and the application state. It either starts the invocation for a new interaction or
  resumes a suspended one; \<open>schedule\<close> performs a list of such actions in order.
\<close>

datatype action = Arrive interaction | Resume nat

fun perform ::
  "('cb \<Rightarrow> interaction \<Rightarrow> 'w \<Rightarrow> 'e outcome \<times> 'w) \<Rightarrow> 'cb component list \<Rightarrow> action \<Rightarrow>
     ('cb, 'e) continuation list \<times> (nat \<times> ('cb, 'e) event) list \<times> 'w \<Rightarrow>
     ('cb, 'e) continuation list \<times> (nat \<times> ('cb, 'e) event) list \<times> 'w" where
  "perform call components (Arrive interaction) (pool, log, w) =
     (case startComponent call components interaction w of
        (k, events, w') \<Rightarrow> (pool @ [k], log @ map (Pair (length pool)) events, w'))"
| "perform call components (Resume n) (pool, log, w) =
     (if n < length pool
      then (case resumeComponent (pool ! n) of
              (k, events) \<Rightarrow> (pool[n := k], log @ map (Pair n) events, w))
      else (pool, log, w))"

definition schedule ::
  "('cb \<Rightarrow> interaction \<Rightarrow> 'w \<Rightarrow> 'e outcome \<times> 'w) \<Rightarrow> 'cb component list \<Rightarrow> action list \<Rightarrow>
     ('cb, 'e) continuation list \<times> (nat \<times> ('cb, 'e) event) list \<times> 'w \<Rightarrow>
     ('cb, 'e) continuation list \<times> (nat \<times> ('cb, 'e) event) list \<times> 'w" where
  "schedule call components actions st = foldl (\<lambda>st a. perform call components a st) st actions"

text \<open>The output of one invocation.\<close>

definition eventsOf :: "nat \<Rightarrow> (nat \<times> ('cb, 'e) event) list \<Rightarrow> ('cb, 'e) event list" where
  "eventsOf n log = map snd (filter (\<lambda>entry. fst entry = n) log)"

section \<open>Loading the components\<close>

text \<open>
  What the loader reads of its environment:
  \<^item> \<^verbatim>\<open>Deno.readDirSync(p)\<close>, which returns (\<open>None\<close>) or throws;
  \<^item> the entries \<^verbatim>\<open>Array.fromAsync(walk("./src/components", ...))\<close> produces, in
    scan order, or the error it rejects with;
  \<^item> \<^verbatim>\<open>import(join("file://", Deno.cwd(), file.path))\<close> for a file path: the
    \<^verbatim>\<open>default\<close> export of the module, or the error thrown while loading it. The
    \<^verbatim>\<open>config\<close> export is never read by the source and is left out.
\<close>

datatype deno_error =
    NotFound
  | PermissionDenied
  | NotADirectory
  | OtherError

record ('cb, 'e) file_system =
  readDirSync :: "string \<Rightarrow> deno_error option"
  walk :: "'e + walk_entry list"
  import_module :: "string \<Rightarrow> 'e + 'cb"

text \<open>
  \<^verbatim>\<open>String.prototype.split\<close> on single characters: the result is never empty, and
  \<open>n\<close> separators give \<open>n + 1\<close> parts.
\<close>

fun split :: "(char \<Rightarrow> bool) \<Rightarrow> string \<Rightarrow> string list" where
  "split sep [] = [[]]"
| "split sep (c # cs) =
     (if sep c then [] # split sep cs
      else (case split sep cs of
              [] \<Rightarrow> [[c]]
            | part # parts \<Rightarrow> (c # part) # parts))"

text \<open>Indexing an array: \<^verbatim>\<open>undefined\<close> out of range.\<close>

definition at_index :: "'a list \<Rightarrow> nat \<Rightarrow> 'a option" where
  "at_index xs i = (if i < length xs then Some (xs ! i) else None)"

text \<open>\<^verbatim>\<open>file.name.split(".")[0]\<close>; the empty case does not occur.\<close>

definition componentName :: "walk_entry \<Rightarrow> string" where
  "componentName file =
     (case split (\<lambda>c. c = CHR ''.'') (walk_entry.name file) of
        [] \<Rightarrow> []
      | part # _ \<Rightarrow> part)"

text \<open>\<^verbatim>\<open>file.path.split(/[\\\/]/)[2]\<close>: the separators are the backslash and the slash.\<close>

definition fileCategory :: "walk_entry \<Rightarrow> string option" where
  "fileCategory file = at_index (split (\<lambda>c. c = CHR 0x5C \<or> c = CHR ''/'') (path file)) 2"

text \<open>\<^verbatim>\<open>toUpperCase\<close> on the letters a to z, which is all the category names contain.\<close>

definition toUpperCase :: "string \<Rightarrow> string" where
  "toUpperCase s =
     map (\<lambda>c. if 97 \<le> (of_char c :: nat) \<and> (of_char c :: nat) \<le> 122
              then char_of ((of_char c :: nat) - 32) else c) s"

definition undeterminedMessage :: "string \<Rightarrow> string" where
  "undeterminedMessage n =
     '' ! Category for \"'' @ n @ ''\" could not be determined, skipping''"

definition duplicateMessage :: "'cb component \<Rightarrow> string" where
  "duplicateMessage component =
     '' ! '' @
     (toUpperCase (take 1 (category component)) @
      drop 1 (case split (\<lambda>c. c = CHR ''s'') (category component) of
                [] \<Rightarrow> []
              | part # _ \<Rightarrow> part)) @
     '' component \"'' @ name component @ ''\" already exists, skipping the duplicate''"

text \<open>A warning printed before the rest of the loop runs.\<close>

definition warned ::
  "string \<Rightarrow> ('e + 'cb component list) \<times> ('cb, 'e) event list \<Rightarrow>
     ('e + 'cb component list) \<times> ('cb, 'e) event list" where
  "warned message rest = (fst rest, ConsoleWarn message # snd rest)"

text \<open>
  The \<^verbatim>\<open>for\<close> loop over the files (lines 135 to 177), with \<^verbatim>\<open>componentData\<close> as
  the accumulator. The module of a file is imported before anything else is looked at;
  a throwing import ends the loop with that error. The result carries the warnings
  printed from this point of the loop on.

  \<^verbatim>\<open>validComponentCategories.includes(category)\<close> is false when the path has no
  third segment (\<^verbatim>\<open>category\<close> is \<^verbatim>\<open>undefined\<close>) and when the segment is not one
  of the three names; both cases print the warning and \<^verbatim>\<open>continue\<close>.
\<close>

fun scanFiles ::
  "(string \<Rightarrow> 'e + 'cb) \<Rightarrow> walk_entry list \<Rightarrow> 'cb component list \<Rightarrow>
     ('e + 'cb component list) \<times> ('cb, 'e) event list" where
  "scanFiles imp [] componentData = (Inr componentData, [])"
| "scanFiles imp (file # files) componentData =
     (case imp (path file) of
        Inl e \<Rightarrow> (Inl e, [])
      | Inr componentModule_default \<Rightarrow>
          (case fileCategory file of
             None \<Rightarrow>
               warned (undeterminedMessage (componentName file))
                 (scanFiles imp files componentData)
           | Some category' \<Rightarrow>
               if category' \<notin> set validComponentCategories then
                 warned (undeterminedMessage (componentName file))
                   (scanFiles imp files componentData)
               else
                 (let component = \<lparr> name = componentName file,
                                      category = category',
                                      default = componentModule_default \<rparr>
                  in if find (\<lambda>c. name c = name component \<and> category c = category')
                          componentData \<noteq> None then
                       warned (duplicateMessage component)
                         (scanFiles imp files componentData)
                     else scanFiles imp files (componentData @ [component]))))"

text \<open>
  The record lines 145 to 160 build for one file, when its module loads and its third
  path segment is a valid category.
\<close>

definition candidate :: "(string \<Rightarrow> 'e + 'cb) \<Rightarrow> walk_entry \<Rightarrow> 'cb component option" where
  "candidate imp file =
     (case imp (path file) of
        Inl e \<Rightarrow> None
      | Inr componentModule_default \<Rightarrow>
          (case fileCategory file of
             None \<Rightarrow> None
           | Some category' \<Rightarrow>
               if category' \<in> set validComponentCategories
               then Some \<lparr> name = componentName file,
                           category = category',
                           default = componentModule_default \<rparr>
               else None))"

definition rootDirectoryMessage :: string where
  "rootDirectoryMessage = '' ! src/components directory not found''"

text \<open>
  \<^verbatim>\<open>fetchComponents\<close>. \<^verbatim>\<open>presentCategories\<close> is computed and never used, as in
  the source.
\<close>

definition fetchComponents ::
  "('cb, 'e) file_system \<Rightarrow> ('e + 'cb component list) \<times> ('cb, 'e) event list" where
  "fetchComponents fs =
     (case readDirSync fs ''./src/components'' of
        Some err \<Rightarrow>
          (Inr [], if err = NotFound then [ConsoleWarn rootDirectoryMessage] else [])
      | None \<Rightarrow>
          (let presentCategories =
                 filter (\<lambda>category'. readDirSync fs (''./src/components/'' @ category') = None)
                   validComponentCategories
           in case walk fs of
                Inl e \<Rightarrow> (Inl e, [])
              | Inr files \<Rightarrow> scanFiles (import_module fs) files []))"

section \<open>Start-up\<close>

text \<open>The corner and tee signs U+250C, U+2514 and U+251C, in UTF-8.\<close>

definition cornerTop :: string where
  "cornerTop = [CHR 0xE2, CHR 0x94, CHR 0x8C]"

definition cornerBottom :: string where
  "cornerBottom = [CHR 0xE2, CHR 0x94, CHR 0x94]"

definition tee :: string where
  "tee = [CHR 0xE2, CHR 0x94, CHR 0x9C]"

text \<open>\<^verbatim>\<open>addComponent\<close> updates the counter \<^verbatim>\<open>generatedN\<close> and the rows
  \<^verbatim>\<open>generatedStr\<close>.\<close>

definition addComponent ::
  "string \<Rightarrow> string \<Rightarrow> nat \<Rightarrow> nat \<times> string list list \<Rightarrow> nat \<times> string list list" where
  "addComponent name' category' totalComponents st =
     (let generatedN = fst st + 1
      in (generatedN,
          snd st @
          [[if totalComponents = 1 then ''-''
            else if generatedN = 1 then cornerTop
            else if totalComponents = generatedN then cornerBottom
            else tee,
            name' @ '' ('' @ category' @ '')'']]))"

text \<open>\<^verbatim>\<open>Array.prototype.join\<close>.\<close>

fun join :: "string \<Rightarrow> string list \<Rightarrow> string" where
  "join sep' [] = []"
| "join sep' [x] = x"
| "join sep' (x # y # ys) = x @ sep' @ join sep' (y # ys)"

text \<open>The text \<^verbatim>\<open>console.log\<close> prints after the \<^verbatim>\<open>forEach\<close> over the components.\<close>

definition generatedListing :: "'cb component list \<Rightarrow> string" where
  "generatedListing components =
     (let st = foldl (\<lambda>st component.
                        addComponent (name component) (category component) (length components) st)
                  (0, [[CHR 0x0A # ''Component'']]) components
      in join [CHR 0x0A] (map (join '' '') (snd st)))"

text \<open>
  \<^verbatim>\<open>setupComponents\<close>: the returned promise is fulfilled with \<^verbatim>\<open>runComponent\<close>,
  closed over the components (\<open>Inr\<close>), or rejected with the error the \<^verbatim>\<open>catch\<close>
  block rethrows (\<open>Inl\<close>).
\<close>

definition setupComponents ::
  "('cb \<Rightarrow> interaction \<Rightarrow> 'w \<Rightarrow> 'e outcome \<times> 'w) \<Rightarrow> ('cb, 'e) file_system \<Rightarrow>
     ('e + (interaction \<Rightarrow> 'w \<Rightarrow> 'e completion \<times> ('cb, 'e) event list \<times> 'w)) \<times>
     ('cb, 'e) event list" where
  "setupComponents call fs =
     (let generating = ''Generating components''
      in case fetchComponents fs of
           (Inl e, log) \<Rightarrow> (Inl e, LoaderStart generating # log @ [LoaderError generating])
         | (Inr components, log) \<Rightarrow>
             (Inr (runComponent call components),
              LoaderStart generating # log @
              [LoaderResolve generating, ConsoleLog (generatedListing components)]))"

section \<open>The classifier\<close>

lemma getCategory_valid: "getCategory i \<in> set validComponentCategories"
  by (simp add: getCategory_def validComponentCategories_def split: option.split)

lemmas ComponentType_defs =
  ComponentType_Button_def ComponentType_StringSelect_def ComponentType_UserSelect_def
  ComponentType_RoleSelect_def ComponentType_MentionableSelect_def
  ComponentType_ChannelSelect_def

text \<open>
  Claim C5. For every value of the component-kind discriminator the classifier returns one
  of the three category names: \<open>buttons\<close> for the button kind, \<open>selects\<close> for each of
  the channel, role, user, string and mentionable select kinds, and \<open>modals\<close> for every
  other value and for an absent discriminator.
\<close>

theorem getCategory_classifies:
  "getCategory i \<in> {''buttons'', ''modals'', ''selects''} \<and>
   (component_type (data i) = Some ComponentType_Button \<longrightarrow> getCategory i = ''buttons'') \<and>
   (component_type (data i) \<in> Some ` {ComponentType_ChannelSelect, ComponentType_RoleSelect,
        ComponentType_UserSelect, ComponentType_StringSelect, ComponentType_MentionableSelect}
      \<longrightarrow> getCategory i = ''selects'') \<and>
   (component_type (data i) \<notin> Some ` {ComponentType_Button, ComponentType_ChannelSelect,
        ComponentType_RoleSelect, ComponentType_UserSelect, ComponentType_StringSelect,
        ComponentType_MentionableSelect}
      \<longrightarrow> getCategory i = ''modals'')"
  by (auto simp: getCategory_def ComponentType_defs split: option.split)

text \<open>The button kind, two select kinds, the text input kind and a modal submission.\<close>

theorem getCategory_classifies_witness:
  "getCategory \<lparr> data = \<lparr> component_type = Some 2, custom_id = ''ok'' \<rparr> \<rparr> = ''buttons'' \<and>
   getCategory \<lparr> data = \<lparr> component_type = Some 3, custom_id = ''ok'' \<rparr> \<rparr> = ''selects'' \<and>
   getCategory \<lparr> data = \<lparr> component_type = Some 8, custom_id = ''ok'' \<rparr> \<rparr> = ''selects'' \<and>
   getCategory \<lparr> data = \<lparr> component_type = Some 4, custom_id = ''ok'' \<rparr> \<rparr> = ''modals'' \<and>
   getCategory \<lparr> data = \<lparr> component_type = None, custom_id = ''ok'' \<rparr> \<rparr> = ''modals''"
  using getCategory_classifies [of "\<lparr> data = \<lparr> component_type = Some 2, custom_id = ''ok'' \<rparr> \<rparr>"]
    getCategory_classifies [of "\<lparr> data = \<lparr> component_type = Some 3, custom_id = ''ok'' \<rparr> \<rparr>"]
    getCategory_classifies [of "\<lparr> data = \<lparr> component_type = Some 8, custom_id = ''ok'' \<rparr> \<rparr>"]
    getCategory_classifies [of "\<lparr> data = \<lparr> component_type = Some 4, custom_id = ''ok'' \<rparr> \<rparr>"]
    getCategory_classifies [of "\<lparr> data = \<lparr> component_type = None, custom_id = ''ok'' \<rparr> \<rparr>"]
  by (simp add: ComponentType_defs)

section \<open>The dispatcher\<close>

lemma findComponent_Some:
  "findComponent components i = Some c \<Longrightarrow>
     c \<in> set components \<and> name c = custom_id (data i) \<and> category c = getCategory i"
  by (auto simp: findComponent_def find_Some_iff)

lemma findComponent_None:
  "findComponent components i = None \<longleftrightarrow>
     (\<forall>c \<in> set components. \<not> (name c = custom_id (data i) \<and> category c = getCategory i))"
  by (auto simp: findComponent_def find_None_iff)

lemma runComponent_Invoke:
  "Invoke c j \<in> set (fst (snd (runComponent call components i w))) \<Longrightarrow>
     findComponent components i = Some c \<and> j = i"
  by (auto simp: runComponent_def Let_def split: option.splits prod.splits outcome.splits)

text \<open>
  Claim C1. Whatever the registry and the interaction, a handler is invoked by the
  dispatcher only if it is registered, the interaction's \<open>custom_id\<close> is its name and the
  category classified from the interaction is its category. In particular a handler of
  category \<open>buttons\<close> is not invoked by an interaction classified as \<open>selects\<close> or
  \<open>modals\<close>, whatever its \<open>custom_id\<close>.
\<close>

theorem runComponent_invokes_only_match:
  "(Invoke c j \<in> set (fst (snd (runComponent call components i w))) \<longrightarrow>
      c \<in> set components \<and> j = i \<and>
      name c = custom_id (data i) \<and> category c = getCategory i) \<and>
   (category c = ''buttons'' \<and> (getCategory i = ''selects'' \<or> getCategory i = ''modals'') \<longrightarrow>
      Invoke c j \<notin> set (fst (snd (runComponent call components i w))))"
  using runComponent_Invoke [of c j call components i w] findComponent_Some [of components i c]
  by auto

text \<open>A button handler is invoked by a button interaction of its name, and not by a
  string-select interaction with the same \<open>custom_id\<close>.\<close>

theorem runComponent_invokes_only_match_witness:
  "Invoke \<lparr> name = ''ok'', category = ''buttons'', default = (0::nat) \<rparr>
      \<lparr> data = \<lparr> component_type = Some 2, custom_id = ''ok'' \<rparr> \<rparr>
     \<in> set (fst (snd (runComponent (\<lambda>cb i w. (Value :: string outcome, w))
            [\<lparr> name = ''ok'', category = ''buttons'', default = 0 \<rparr>]
            \<lparr> data = \<lparr> component_type = Some 2, custom_id = ''ok'' \<rparr> \<rparr> ()))) \<and>
   name \<lparr> name = ''ok'', category = ''buttons'', default = (0::nat) \<rparr> =
     custom_id (data \<lparr> data = \<lparr> component_type = Some 2, custom_id = ''ok'' \<rparr> \<rparr>) \<and>
   category \<lparr> name = ''ok'', category = ''buttons'', default = (0::nat) \<rparr> =
     getCategory \<lparr> data = \<lparr> component_type = Some 2, custom_id = ''ok'' \<rparr> \<rparr> \<and>
   getCategory \<lparr> data = \<lparr> component_type = Some 3, custom_id = ''ok'' \<rparr> \<rparr> = ''selects'' \<and>
   Invoke \<lparr> name = ''ok'', category = ''buttons'', default = (0::nat) \<rparr>
      \<lparr> data = \<lparr> component_type = Some 3, custom_id = ''ok'' \<rparr> \<rparr>
     \<notin> set (fst (snd (runComponent (\<lambda>cb i w. (Value :: string outcome, w))
            [\<lparr> name = ''ok'', category = ''buttons'', default = 0 \<rparr>]
            \<lparr> data = \<lparr> component_type = Some 3, custom_id = ''ok'' \<rparr> \<rparr> ())))"
proof -
  let ?c = "\<lparr> name = ''ok'', category = ''buttons'', default = (0::nat) \<rparr>"
  let ?button = "\<lparr> data = \<lparr> component_type = Some 2, custom_id = ''ok'' \<rparr> \<rparr>"
  let ?select = "\<lparr> data = \<lparr> component_type = Some 3, custom_id = ''ok'' \<rparr> \<rparr>"
  let ?call = "\<lambda>(cb::nat) (i::interaction) (w::unit). (Value :: string outcome, w)"
  have invoked: "Invoke ?c ?button \<in> set (fst (snd (runComponent ?call [?c] ?button ())))"
    by (simp add: runComponent_def findComponent_def getCategory_def ComponentType_defs Let_def)
  have select: "getCategory ?select = ''selects''"
    by (simp add: getCategory_def ComponentType_defs)
  show ?thesis
    using invoked select
      runComponent_invokes_only_match [of ?c ?button ?call "[?c]" ?button "()"]
      runComponent_invokes_only_match [of ?c ?select ?call "[?c]" ?select "()"]
    by simp
qed

text \<open>
  Claim C8. When no record of the registry has the interaction's \<open>custom_id\<close> as name and
  its classified category as category, the dispatch call ends with a resolved promise,
  prints the not-found notice and nothing else, invokes no callback and leaves the
  application state as it was.
\<close>

theorem runComponent_not_found:
  assumes "\<forall>c \<in> set components. \<not> (name c = custom_id (data i) \<and> category c = getCategory i)"
  shows "runComponent call components i w =
           (Resolved, [ConsoleWarn (notFoundMessage (custom_id (data i)))], w) \<and>
         (\<forall>c j. Invoke c j \<notin> set (fst (snd (runComponent call components i w))))"
proof -
  have "findComponent components i = None"
    using assms by (simp add: findComponent_None)
  then show ?thesis
    by (simp add: runComponent_def)
qed

text \<open>A modal submission whose \<open>custom_id\<close> is the name of a button handler.\<close>

theorem runComponent_not_found_witness:
  "runComponent (\<lambda>cb i w. (Value :: string outcome, w))
     [\<lparr> name = ''ok'', category = ''buttons'', default = (0::nat) \<rparr>]
     \<lparr> data = \<lparr> component_type = None, custom_id = ''ok'' \<rparr> \<rparr> (7::nat) =
   (Resolved, [ConsoleWarn '' ! Component \"ok\" not found''], 7)"
proof -
  let ?c = "\<lparr> name = ''ok'', category = ''buttons'', default = (0::nat) \<rparr>"
  let ?modal = "\<lparr> data = \<lparr> component_type = None, custom_id = ''ok'' \<rparr> \<rparr>"
  have none: "\<forall>c \<in> set [?c]. \<not> (name c = custom_id (data ?modal) \<and> category c = getCategory ?modal)"
    by (simp add: getCategory_def)
  show ?thesis
    using runComponent_not_found [OF none, of "\<lambda>cb i w. (Value :: string outcome, w)" "7::nat"]
    by (simp add: notFoundMessage_def)
qed

subsection \<open>Failing callbacks\<close>

lemma runComponent_failure:
  assumes "findComponent components i = Some c"
    and "call (default c) i w = (out, w')"
    and "out = Throws e \<or> out = PromiseRejected e"
  shows "runComponent call components i w =
           (Resolved,
            [LoaderStart (runningMessage (name c)), Invoke c i,
             LoaderError (runningMessage (name c)), ConsoleError errorPrefix e], w')"
  using assms by (auto simp: runComponent_def Let_def)

text \<open>
  \<^verbatim>\<open>runComponent\<close> run on its own is its first stretch followed by two
  resumptions.
\<close>

lemma runComponent_stepwise:
  "runComponent call components i w =
     (case startComponent call components i w of
        (k0, events0, w') \<Rightarrow>
          (case resumeComponent k0 of
             (k1, events1) \<Rightarrow>
               (case resumeComponent k1 of
                  (k2, events2) \<Rightarrow> (completionOf k2, events0 @ events1 @ events2, w'))))"
  by (auto simp: runComponent_def startComponent_def completionOf_def Let_def
      split: option.split prod.split outcome.split)

lemma eventsOf_append [simp]: "eventsOf n (xs @ ys) = eventsOf n xs @ eventsOf n ys"
  by (simp add: eventsOf_def)

lemma eventsOf_same [simp]: "eventsOf n (map (Pair n) events) = events"
  by (induction events) (simp_all add: eventsOf_def)

lemma eventsOf_other [simp]: "m \<noteq> n \<Longrightarrow> eventsOf n (map (Pair m) events) = []"
  by (induction events) (simp_all add: eventsOf_def)

text \<open>
  An action that is not the resumption of invocation \<open>n\<close> leaves that invocation where
  it is and adds nothing to its output; so does any action once the invocation is
  settled.
\<close>

lemma perform_frame:
  assumes "perform call components a (pool, log, w) = (pool', log', w')"
    and "n < length pool" and "a \<noteq> Resume n"
  shows "pool' ! n = pool ! n \<and> eventsOf n log' = eventsOf n log \<and> length pool \<le> length pool'"
proof (cases a)
  case (Arrive i)
  with assms(1,2) show ?thesis
    by (auto simp: nth_append split: prod.splits)
next
  case (Resume m)
  with assms(3) have "m \<noteq> n" by simp
  with Resume assms(1,2) show ?thesis
    by (auto split: prod.splits if_splits)
qed

lemma schedule_frame:
  "schedule call components actions (pool, log, w) = (pool', log', w') \<Longrightarrow>
     n < length pool \<Longrightarrow> Resume n \<notin> set actions \<Longrightarrow>
     pool' ! n = pool ! n \<and> eventsOf n log' = eventsOf n log \<and> length pool \<le> length pool'"
proof (induction actions arbitrary: pool log w)
  case Nil
  then show ?case by (simp add: schedule_def)
next
  case (Cons a actions)
  obtain pool1 log1 w1 where first: "perform call components a (pool, log, w) = (pool1, log1, w1)"
    by (cases "perform call components a (pool, log, w)") auto
  from Cons.prems(3) have "a \<noteq> Resume n" "Resume n \<notin> set actions" by auto
  from perform_frame [OF first Cons.prems(2) this(1)]
  have one: "pool1 ! n = pool ! n" "eventsOf n log1 = eventsOf n log" "length pool \<le> length pool1"
    by auto
  from Cons.prems(1) first have "schedule call components actions (pool1, log1, w1) = (pool', log', w')"
    by (simp add: schedule_def)
  from Cons.IH [OF this _ \<open>Resume n \<notin> set actions\<close>] one Cons.prems(2) show ?case
    by auto
qed

lemma schedule_Cons:
  "schedule call components (a # actions) st =
     schedule call components actions (perform call components a st)"
  by (simp add: schedule_def)

lemma schedule_append:
  "schedule call components (xs @ ys) st =
     schedule call components ys (schedule call components xs st)"
  by (simp add: schedule_def)

lemma perform_settled:
  assumes "perform call components a (pool, log, w) = (pool', log', w')"
    and "n < length pool" and "pool ! n = Settled c"
  shows "pool' ! n = Settled c \<and> eventsOf n log' = eventsOf n log \<and> length pool \<le> length pool'"
proof (cases "a = Resume n")
  case True
  with assms show ?thesis by auto
next
  case False
  from perform_frame [OF assms(1,2) False] assms(3) show ?thesis by simp
qed

lemma schedule_settled:
  "schedule call components actions (pool, log, w) = (pool', log', w') \<Longrightarrow>
     n < length pool \<Longrightarrow> pool ! n = Settled c \<Longrightarrow>
     pool' ! n = Settled c \<and> eventsOf n log' = eventsOf n log \<and> length pool \<le> length pool'"
proof (induction actions arbitrary: pool log w)
  case Nil
  then show ?case by (simp add: schedule_def)
next
  case (Cons a actions)
  obtain pool1 log1 w1 where first: "perform call components a (pool, log, w) = (pool1, log1, w1)"
    by (cases "perform call components a (pool, log, w)") auto
  from perform_settled [OF first Cons.prems(2,3)]
  have one: "pool1 ! n = Settled c" "eventsOf n log1 = eventsOf n log" "length pool \<le> length pool1"
    by auto
  from Cons.prems(1) first have "schedule call components actions (pool1, log1, w1) = (pool', log', w')"
    by (simp add: schedule_Cons)
  from Cons.IH [OF this _ one(1)] one Cons.prems(2) show ?case
    by auto
qed

lemma perform_Resume:
  "n < length pool \<Longrightarrow>
     perform call components (Resume n) (pool, log, w) =
       (pool[n := fst (resumeComponent (pool ! n))],
        log @ map (Pair n) (snd (resumeComponent (pool ! n))), w)"
  by (simp add: case_prod_beta)

text \<open>
  An invocation whose callback fails is settled and resolved after two resumptions,
  whatever is performed in between and afterwards.
\<close>

lemma failure_two_resumes:
  assumes "findComponent components i = Some c"
    and "call (default c) i w = (out, w1)"
    and "out = Throws e \<or> out = PromiseRejected e"
    and "startComponent call components i w = (k0, events0, w0)"
  shows "fst (resumeComponent (fst (resumeComponent k0))) = Settled Resolved \<and>
         events0 @ snd (resumeComponent k0) @ snd (resumeComponent (fst (resumeComponent k0))) =
           [LoaderStart (runningMessage (name c)), Invoke c i,
            LoaderError (runningMessage (name c)), ConsoleError errorPrefix e]"
  using assms by (auto simp: startComponent_def Let_def)

lemma failure_interleaved:
  assumes found: "findComponent components i = Some c"
    and called: "call (default c) i w = (out, w1)"
    and failing: "out = Throws e \<or> out = PromiseRejected e"
    and others: "Resume (length pool) \<notin> set acts1" "Resume (length pool) \<notin> set acts2"
    and run: "schedule call components
                (Arrive i # acts1 @ Resume (length pool) # acts2 @ Resume (length pool) # acts3)
                (pool, log, w) = (pool', log', w')"
  shows "pool' ! length pool = Settled Resolved \<and>
         eventsOf (length pool) log' =
           eventsOf (length pool) log @
           [LoaderStart (runningMessage (name c)), Invoke c i,
            LoaderError (runningMessage (name c)), ConsoleError errorPrefix e]"
proof -
  let ?n = "length pool"
  let ?sched = "schedule call components"
  obtain k0 events0 w0 where start: "startComponent call components i w = (k0, events0, w0)"
    by (cases "startComponent call components i w") auto
  note two = failure_two_resumes [OF found called failing start]
  let ?k1 = "fst (resumeComponent k0)" and ?events1 = "snd (resumeComponent k0)"
  let ?k2 = "fst (resumeComponent ?k1)" and ?events2 = "snd (resumeComponent ?k1)"
  have arrive: "perform call components (Arrive i) (pool, log, w) =
      (pool @ [k0], log @ map (Pair ?n) events0, w0)"
    using start by simp
  obtain pool1 log1 v1 where s1: "?sched acts1 (pool @ [k0], log @ map (Pair ?n) events0, w0) = (pool1, log1, v1)"
    by (cases "?sched acts1 (pool @ [k0], log @ map (Pair ?n) events0, w0)") auto
  from schedule_frame [OF s1 _ others(1)]
  have f1: "pool1 ! ?n = k0" "eventsOf ?n log1 = eventsOf ?n log @ events0" "?n < length pool1"
    by auto
  have r1: "perform call components (Resume ?n) (pool1, log1, v1) =
      (pool1[?n := ?k1], log1 @ map (Pair ?n) ?events1, v1)"
    using f1 by (simp add: case_prod_beta)
  obtain pool2 log2 v2 where s2: "?sched acts2 (pool1[?n := ?k1], log1 @ map (Pair ?n) ?events1, v1) = (pool2, log2, v2)"
    by (cases "?sched acts2 (pool1[?n := ?k1], log1 @ map (Pair ?n) ?events1, v1)") auto
  from schedule_frame [OF s2 _ others(2)] f1
  have f2: "pool2 ! ?n = ?k1" "eventsOf ?n log2 = eventsOf ?n log @ events0 @ ?events1"
    "?n < length pool2"
    by auto
  have r2: "perform call components (Resume ?n) (pool2, log2, v2) =
      (pool2[?n := ?k2], log2 @ map (Pair ?n) ?events2, v2)"
    using f2 by (simp add: case_prod_beta)
  have s3: "?sched acts3 (pool2[?n := ?k2], log2 @ map (Pair ?n) ?events2, v2) = (pool', log', w')"
    using run arrive s1 r1 s2 r2 by (simp add: schedule_Cons schedule_append)
  from schedule_settled [OF s3, of ?n Resolved] f2 two
  show ?thesis
    by auto
qed

lemma runComponent_never_rejects:
  "fst (runComponent call components i w) \<noteq> Rejected e"
  by (auto simp: runComponent_def Let_def split: option.splits prod.splits outcome.splits)

text \<open>
  Claim C2. When the matched callback throws or returns a promise that is rejected, the
  dispatch call catches the error: the loader of that handler (``Running component''
  with the handler's name) is put in its error state, the error is printed, and the
  promise of the dispatch call is resolved, not rejected. Nothing else is affected:
  \<^item> a caller that awaits the call goes on with the interactions that follow, which are
    dispatched as they would be from the application state the failed callback left;
  \<^item> when the invocation overlaps with others, whatever the runtime does between its
    arrival and its two resumptions and after them, it ends settled and resolved, with
    the same output;
  \<^item> no action of the runtime other than the resumption of an invocation changes where
    that invocation stands or what it has printed, so a failing invocation changes
    nothing of the others.
\<close>

theorem runComponent_isolates_failure:
  assumes "findComponent components i = Some c"
    and "call (default c) i w = (out, w')"
    and "out = Throws e \<or> out = PromiseRejected e"
  shows "runComponent call components i w =
           (Resolved,
            [LoaderStart (runningMessage (name c)), Invoke c i,
             LoaderError (runningMessage (name c)), ConsoleError errorPrefix e], w') \<and>
         dispatchAll (runComponent call components) (i # rest) w =
           ((Resolved,
             [LoaderStart (runningMessage (name c)), Invoke c i,
              LoaderError (runningMessage (name c)), ConsoleError errorPrefix e]) #
            fst (dispatchAll (runComponent call components) rest w'),
            snd (dispatchAll (runComponent call components) rest w')) \<and>
         (\<forall>pool log acts1 acts2 acts3.
            Resume (length pool) \<notin> set acts1 \<and> Resume (length pool) \<notin> set acts2 \<longrightarrow>
            fst (schedule call components
                   (Arrive i # acts1 @ Resume (length pool) # acts2 @
                    Resume (length pool) # acts3) (pool, log, w)) ! length pool =
              Settled Resolved \<and>
            eventsOf (length pool)
              (fst (snd (schedule call components
                   (Arrive i # acts1 @ Resume (length pool) # acts2 @
                    Resume (length pool) # acts3) (pool, log, w)))) =
              eventsOf (length pool) log @
              [LoaderStart (runningMessage (name c)), Invoke c i,
               LoaderError (runningMessage (name c)), ConsoleError errorPrefix e]) \<and>
         (\<forall>pool log v actions n.
            n < length pool \<and> Resume n \<notin> set actions \<longrightarrow>
            fst (schedule call components actions (pool, log, v)) ! n = pool ! n \<and>
            eventsOf n (fst (snd (schedule call components actions (pool, log, v)))) =
              eventsOf n log)"
proof -
  let ?failure = "[LoaderStart (runningMessage (name c)), Invoke c i,
    LoaderError (runningMessage (name c)), ConsoleError errorPrefix e]"
  have alone: "runComponent call components i w = (Resolved, ?failure, w')"
    using runComponent_failure [of components i c call w out w' e] assms by simp
  then have awaited: "dispatchAll (runComponent call components) (i # rest) w =
      ((Resolved, ?failure) # fst (dispatchAll (runComponent call components) rest w'),
       snd (dispatchAll (runComponent call components) rest w'))"
    by (simp add: case_prod_beta)
  have overlapping:
    "fst (schedule call components
        (Arrive i # acts1 @ Resume (length pool) # acts2 @ Resume (length pool) # acts3)
        (pool, log, w)) ! length pool = Settled Resolved \<and>
     eventsOf (length pool)
       (fst (snd (schedule call components
          (Arrive i # acts1 @ Resume (length pool) # acts2 @ Resume (length pool) # acts3)
          (pool, log, w)))) = eventsOf (length pool) log @ ?failure"
    if "Resume (length pool) \<notin> set acts1" "Resume (length pool) \<notin> set acts2"
    for pool log acts1 acts2 acts3
    using failure_interleaved [of components i c call w out w' e pool acts1 acts2 acts3 log]
      assms that
    by (cases "schedule call components
        (Arrive i # acts1 @ Resume (length pool) # acts2 @ Resume (length pool) # acts3)
        (pool, log, w)") simp
  have others:
    "fst (schedule call components actions (pool, log, v)) ! n = pool ! n \<and>
     eventsOf n (fst (snd (schedule call components actions (pool, log, v)))) = eventsOf n log"
    if "n < length pool" "Resume n \<notin> set actions" for pool log v actions n
    using schedule_frame [of call components actions pool log v _ _ _ n] that
    by (cases "schedule call components actions (pool, log, v)") simp
  from alone awaited overlapping others show ?thesis
    by blast
qed

text \<open>Handler \<open>a\<close> throws, handler \<open>b\<close> returns: the dispatch of \<open>a\<close> is resolved and the
  dispatch of \<open>b\<close> that follows runs to its end; when the two invocations overlap, both
  end settled and resolved.\<close>

theorem runComponent_isolates_failure_witness:
  "runComponent (\<lambda>cb i w. (if cb = 0 then Throws ''boom'' else Value, Suc w))
     [\<lparr> name = ''a'', category = ''buttons'', default = (0::nat) \<rparr>,
      \<lparr> name = ''b'', category = ''buttons'', default = 1 \<rparr>]
     \<lparr> data = \<lparr> component_type = Some 2, custom_id = ''a'' \<rparr> \<rparr> (0::nat) =
   (Resolved,
    [LoaderStart ''Running component \"a\"'',
     Invoke \<lparr> name = ''a'', category = ''buttons'', default = 0 \<rparr>
       \<lparr> data = \<lparr> component_type = Some 2, custom_id = ''a'' \<rparr> \<rparr>,
     LoaderError ''Running component \"a\"'',
     ConsoleError errorPrefix ''boom''], 1) \<and>
   dispatchAll
     (runComponent (\<lambda>cb i w. (if cb = 0 then Throws ''boom'' else Value, Suc w))
        [\<lparr> name = ''a'', category = ''buttons'', default = (0::nat) \<rparr>,
         \<lparr> name = ''b'', category = ''buttons'', default = 1 \<rparr>])
     [\<lparr> data = \<lparr> component_type = Some 2, custom_id = ''a'' \<rparr> \<rparr>,
      \<lparr> data = \<lparr> component_type = Some 2, custom_id = ''b'' \<rparr> \<rparr>] (0::nat) =
   ([(Resolved,
      [LoaderStart ''Running component \"a\"'',
       Invoke \<lparr> name = ''a'', category = ''buttons'', default = 0 \<rparr>
         \<lparr> data = \<lparr> component_type = Some 2, custom_id = ''a'' \<rparr> \<rparr>,
       LoaderError ''Running component \"a\"'',
       ConsoleError errorPrefix ''boom'']),
     (Resolved,
      [LoaderStart ''Running component \"b\"'',
       Invoke \<lparr> name = ''b'', category = ''buttons'', default = 1 \<rparr>
         \<lparr> data = \<lparr> component_type = Some 2, custom_id = ''b'' \<rparr> \<rparr>,
       LoaderResolve ''Running component \"b\"''])], 2) \<and>
   fst (schedule (\<lambda>cb i w. (if cb = 0 then Throws ''boom'' else Value, Suc w))
     [\<lparr> name = ''a'', category = ''buttons'', default = (0::nat) \<rparr>,
      \<lparr> name = ''b'', category = ''buttons'', default = 1 \<rparr>]
     [Arrive \<lparr> data = \<lparr> component_type = Some 2, custom_id = ''a'' \<rparr> \<rparr>,
      Arrive \<lparr> data = \<lparr> component_type = Some 2, custom_id = ''b'' \<rparr> \<rparr>,
      Resume 0, Resume 1, Resume 0, Resume 1] ([], [], 0::nat)) =
   [Settled Resolved, Settled Resolved]"
proof -
  let ?a = "\<lparr> name = ''a'', category = ''buttons'', default = (0::nat) \<rparr>"
  let ?b = "\<lparr> name = ''b'', category = ''buttons'', default = (1::nat) \<rparr>"
  let ?ia = "\<lparr> data = \<lparr> component_type = Some 2, custom_id = ''a'' \<rparr> \<rparr>"
  let ?ib = "\<lparr> data = \<lparr> component_type = Some 2, custom_id = ''b'' \<rparr> \<rparr>"
  let ?call = "\<lambda>(cb::nat) (i::interaction) (w::nat). (if cb = 0 then Throws ''boom'' else Value, Suc w)"
  have found: "findComponent [?a, ?b] ?ia = Some ?a"
    by (simp add: findComponent_def getCategory_def ComponentType_defs)
  have called: "?call (default ?a) ?ia 0 = (Throws ''boom'', 1)"
    by simp
  have second: "dispatchAll (runComponent ?call [?a, ?b]) [?ib] 1 =
      ([(Resolved, [LoaderStart ''Running component \"b\"'', Invoke ?b ?ib,
          LoaderResolve ''Running component \"b\"''])], 2)"
    by (simp add: runComponent_def findComponent_def getCategory_def ComponentType_defs
        runningMessage_def Let_def)
  have overlapping: "fst (schedule ?call [?a, ?b]
      [Arrive ?ia, Arrive ?ib, Resume 0, Resume 1, Resume 0, Resume 1] ([], [], 0)) =
      [Settled Resolved, Settled Resolved]"
    by (simp add: schedule_def startComponent_def findComponent_def getCategory_def
        ComponentType_defs Let_def)
  show ?thesis
    using found called second overlapping
      runComponent_isolates_failure
        [of "[?a, ?b]" ?ia ?a ?call 0 "Throws ''boom''" 1 "''boom''" "[?ib]"]
    by (simp add: runningMessage_def)
qed


section \<open>The loader\<close>

subsection \<open>The loop over the files\<close>

lemma find_append':
  "find P (xs @ ys) = (case find P xs of Some x \<Rightarrow> Some x | None \<Rightarrow> find P ys)"
  by (induction xs) auto

lemma scanFiles_step:
  "scanFiles imp (file # files) acc =
     (case imp (path file) of
        Inl e \<Rightarrow> (Inl e, [])
      | Inr d \<Rightarrow>
          (case candidate imp file of
             None \<Rightarrow> warned (undeterminedMessage (componentName file)) (scanFiles imp files acc)
           | Some r \<Rightarrow>
               if find (\<lambda>c. name c = name r \<and> category c = category r) acc \<noteq> None
               then warned (duplicateMessage r) (scanFiles imp files acc)
               else scanFiles imp files (acc @ [r])))"
  by (auto simp: candidate_def Let_def split: sum.split option.split)

declare scanFiles.simps(2) [simp del]

lemma candidate_Some_import:
  "candidate imp file = Some r \<Longrightarrow> imp (path file) = Inr (default r)"
  by (auto simp: candidate_def split: sum.splits option.splits if_splits)

lemma candidate_Some_fields:
  "candidate imp file = Some r \<Longrightarrow>
     name r = componentName file \<and> fileCategory file = Some (category r) \<and>
     category r \<in> set validComponentCategories"
  by (auto simp: candidate_def split: sum.splits option.splits if_splits)

lemma scanFiles_ok:
  "\<forall>f \<in> set files. \<exists>d. imp (path f) = Inr d \<Longrightarrow>
     \<exists>comps log. scanFiles imp files acc = (Inr comps, log)"
proof (induction files arbitrary: acc)
  case Nil
  then show ?case by simp
next
  case (Cons f files)
  from Cons.prems obtain d where d: "imp (path f) = Inr d" by auto
  from Cons.prems have rest: "\<forall>f \<in> set files. \<exists>d. imp (path f) = Inr d" by simp
  from Cons.IH [OF rest] have ok: "\<exists>comps. fst (scanFiles imp files acc') = Inr comps" for acc'
    by (metis fst_conv)
  show ?case
    using d ok [of acc] ok [of "acc @ [r]" for r]
    by (auto simp: scanFiles_step warned_def prod_eq_iff split: option.split)
qed

lemma scanFiles_find:
  "scanFiles imp files acc = (Inr comps, log) \<Longrightarrow>
     find (\<lambda>c. name c = n \<and> category c = cat) comps =
       (case find (\<lambda>c. name c = n \<and> category c = cat) acc of
          Some c \<Rightarrow> Some c
        | None \<Rightarrow> find (\<lambda>c. name c = n \<and> category c = cat)
                    (List.map_filter (candidate imp) files))"
proof (induction files arbitrary: acc comps log)
  case Nil
  then show ?case by (auto split: option.split)
next
  case (Cons f files)
  let ?P = "\<lambda>c. name c = n \<and> category c = cat"
  from Cons.prems obtain d where d: "imp (path f) = Inr d"
    by (cases "imp (path f)") (auto simp: scanFiles_step)
  show ?case
  proof (cases "candidate imp f")
    case None
    with Cons.prems d have "scanFiles imp files acc = (Inr comps, tl log)"
      by (auto simp: scanFiles_step warned_def prod_eq_iff)
    from Cons.IH [OF this] None show ?thesis by (simp split: option.split)
  next
    case (Some r)
    show ?thesis
    proof (cases "find (\<lambda>c. name c = name r \<and> category c = category r) acc = None")
      case True
      with Cons.prems d Some have "scanFiles imp files (acc @ [r]) = (Inr comps, log)"
        by (simp add: scanFiles_step)
      from Cons.IH [OF this] Some show ?thesis
        by (simp add: find_append' split: option.split)
    next
      case False
      with Cons.prems d Some have run: "scanFiles imp files acc = (Inr comps, tl log)"
        by (auto simp: scanFiles_step warned_def prod_eq_iff)
      have "find ?P acc = None \<Longrightarrow> \<not> ?P r"
        using False by auto
      with Cons.IH [OF run] Some show ?thesis
        by (auto split: option.split)
    qed
  qed
qed

lemma scanFiles_distinct:
  "scanFiles imp files acc = (Inr comps, log) \<Longrightarrow>
     distinct (map (\<lambda>c. (name c, category c)) acc) \<Longrightarrow>
     distinct (map (\<lambda>c. (name c, category c)) comps)"
proof (induction files arbitrary: acc comps log)
  case Nil
  then show ?case by simp
next
  case (Cons f files)
  from Cons.prems(1) obtain d where d: "imp (path f) = Inr d"
    by (cases "imp (path f)") (auto simp: scanFiles_step)
  show ?case
  proof (cases "candidate imp f")
    case None
    with Cons.prems(1) d have "scanFiles imp files acc = (Inr comps, tl log)"
      by (auto simp: scanFiles_step warned_def prod_eq_iff)
    from Cons.IH [OF this Cons.prems(2)] show ?thesis .
  next
    case (Some r)
    show ?thesis
    proof (cases "find (\<lambda>c. name c = name r \<and> category c = category r) acc = None")
      case True
      with Cons.prems(1) d Some have run: "scanFiles imp files (acc @ [r]) = (Inr comps, log)"
        by (simp add: scanFiles_step)
      from True have "(name r, category r) \<notin> (\<lambda>c. (name c, category c)) ` set acc"
        by (auto simp: find_None_iff)
      with Cons.prems(2) have "distinct (map (\<lambda>c. (name c, category c)) (acc @ [r]))"
        by simp
      from Cons.IH [OF run this] show ?thesis .
    next
      case False
      with Cons.prems(1) d Some have run: "scanFiles imp files acc = (Inr comps, tl log)"
        by (auto simp: scanFiles_step warned_def prod_eq_iff)
      from Cons.IH [OF run Cons.prems(2)] show ?thesis .
    qed
  qed
qed

lemma scanFiles_duplicate_warning:
  "scanFiles imp (pre @ file # post) acc = (Inr comps, log) \<Longrightarrow>
     candidate imp file = Some r \<Longrightarrow>
     \<exists>r' \<in> set acc \<union> set (List.map_filter (candidate imp) pre).
        name r' = name r \<and> category r' = category r \<Longrightarrow>
     ConsoleWarn (duplicateMessage r) \<in> set log"
proof (induction pre arbitrary: acc comps log)
  case Nil
  from Nil.prems(3) have "find (\<lambda>c. name c = name r \<and> category c = category r) acc \<noteq> None"
    by (auto simp: find_None_iff)
  with Nil.prems(1,2) show ?case
    by (auto simp: scanFiles_step warned_def candidate_Some_import prod_eq_iff)
next
  case (Cons p pre)
  from Cons.prems(1) obtain d where d: "imp (path p) = Inr d"
    by (cases "imp (path p)") (auto simp: scanFiles_step)
  show ?case
  proof (cases "candidate imp p")
    case None
    with Cons.prems(1) d have run: "scanFiles imp (pre @ file # post) acc = (Inr comps, tl log)"
      and "log \<noteq> []"
      by (auto simp: scanFiles_step warned_def prod_eq_iff)
    from Cons.prems(3) None
    have "\<exists>r' \<in> set acc \<union> set (List.map_filter (candidate imp) pre).
            name r' = name r \<and> category r' = category r"
      by simp
    from Cons.IH [OF run Cons.prems(2) this] \<open>log \<noteq> []\<close> show ?thesis
      by (cases log) auto
  next
    case (Some rp)
    show ?thesis
    proof (cases "find (\<lambda>c. name c = name rp \<and> category c = category rp) acc = None")
      case True
      with Cons.prems(1) d Some
      have run: "scanFiles imp (pre @ file # post) (acc @ [rp]) = (Inr comps, log)"
        by (simp add: scanFiles_step)
      from Cons.prems(3) Some
      have "\<exists>r' \<in> set (acc @ [rp]) \<union> set (List.map_filter (candidate imp) pre).
              name r' = name r \<and> category r' = category r"
        by auto
      from Cons.IH [OF run Cons.prems(2) this] show ?thesis .
    next
      case False
      with Cons.prems(1) d Some
      have run: "scanFiles imp (pre @ file # post) acc = (Inr comps, tl log)"
        and "log \<noteq> []"
        by (auto simp: scanFiles_step warned_def prod_eq_iff)
      from False obtain c where "c \<in> set acc" "name c = name rp" "category c = category rp"
        by (auto simp: find_None_iff)
      with Cons.prems(3) Some
      have "\<exists>r' \<in> set acc \<union> set (List.map_filter (candidate imp) pre).
              name r' = name r \<and> category r' = category r"
        by auto
      from Cons.IH [OF run Cons.prems(2) this] \<open>log \<noteq> []\<close> show ?thesis
        by (cases log) auto
    qed
  qed
qed

lemma scanFiles_length:
  "scanFiles imp files acc = (Inr comps, log) \<Longrightarrow>
     length comps + length log = length acc + length files"
proof (induction files arbitrary: acc comps log)
  case Nil
  then show ?case by simp
next
  case (Cons f files)
  from Cons.prems obtain d where d: "imp (path f) = Inr d"
    by (cases "imp (path f)") (auto simp: scanFiles_step)
  show ?case
  proof (cases "candidate imp f")
    case None
    with Cons.prems d have "scanFiles imp files acc = (Inr comps, tl log)" and "log \<noteq> []"
      by (auto simp: scanFiles_step warned_def prod_eq_iff)
    from Cons.IH [OF this(1)] this(2) show ?thesis
      by (cases log) auto
  next
    case (Some r)
    show ?thesis
    proof (cases "find (\<lambda>c. name c = name r \<and> category c = category r) acc = None")
      case True
      with Cons.prems d Some have "scanFiles imp files (acc @ [r]) = (Inr comps, log)"
        by (simp add: scanFiles_step)
      from Cons.IH [OF this] show ?thesis by simp
    next
      case False
      with Cons.prems d Some have "scanFiles imp files acc = (Inr comps, tl log)"
        and "log \<noteq> []"
        by (auto simp: scanFiles_step warned_def prod_eq_iff)
      from Cons.IH [OF this(1)] this(2) show ?thesis
        by (cases log) auto
    qed
  qed
qed

lemma scanFiles_fails:
  "f \<in> set files \<Longrightarrow> imp (path f) = Inl e \<Longrightarrow>
     \<exists>e' f'. f' \<in> set files \<and> imp (path f') = Inl e' \<and>
       fst (scanFiles imp files acc) = Inl e'"
proof (induction files arbitrary: acc)
  case Nil
  then show ?case by simp
next
  case (Cons g files)
  show ?case
  proof (cases "imp (path g)")
    case (Inl e')
    then show ?thesis by (auto simp: scanFiles_step)
  next
    case (Inr d)
    with Cons.prems have "f \<in> set files" by auto
    have "\<exists>acc'. fst (scanFiles imp (g # files) acc) = fst (scanFiles imp files acc')"
    proof (cases "candidate imp g")
      case None
      with Inr show ?thesis
        by (auto simp: scanFiles_step warned_def)
    next
      case (Some r)
      show ?thesis
      proof (cases "find (\<lambda>c. name c = name r \<and> category c = category r) acc = None")
        case True
        with Inr Some show ?thesis
          by (auto simp: scanFiles_step)
      next
        case False
        with Inr Some have "fst (scanFiles imp (g # files) acc) = fst (scanFiles imp files acc)"
          by (auto simp: scanFiles_step warned_def)
        then show ?thesis ..
      qed
    qed
    then obtain acc' where
      "fst (scanFiles imp (g # files) acc) = fst (scanFiles imp files acc')" ..
    with Cons.IH [OF \<open>f \<in> set files\<close> Cons.prems(2), of acc'] show ?thesis
      by auto
  qed
qed

lemma scanFiles_skip:
  "imp (path f) = Inr d \<Longrightarrow> candidate imp f = None \<Longrightarrow>
     fst (scanFiles imp (pre @ f # post) acc) = fst (scanFiles imp (pre @ post) acc)"
proof (induction pre arbitrary: acc)
  case Nil
  then show ?case by (simp add: scanFiles_step warned_def)
next
  case (Cons p pre)
  from Cons.IH [OF Cons.prems] show ?case
    by (simp add: scanFiles_step warned_def split: sum.split option.split)
qed

lemma scanFiles_skip_warning:
  "\<forall>p \<in> set pre. \<exists>d. imp (path p) = Inr d \<Longrightarrow>
     imp (path f) = Inr d \<Longrightarrow> candidate imp f = None \<Longrightarrow>
     ConsoleWarn (undeterminedMessage (componentName f))
       \<in> set (snd (scanFiles imp (pre @ f # post) acc))"
proof (induction pre arbitrary: acc)
  case Nil
  then show ?case by (simp add: scanFiles_step warned_def)
next
  case (Cons p pre)
  from Cons.prems(1) obtain dp where dp: "imp (path p) = Inr dp" by auto
  from Cons.prems(1) have "\<forall>p \<in> set pre. \<exists>d. imp (path p) = Inr d" by simp
  from Cons.IH [OF this Cons.prems(2,3)] dp show ?case
    by (simp add: scanFiles_step warned_def split: option.split)
qed

lemma candidate_None_iff:
  "imp (path f) = Inr d \<Longrightarrow>
     candidate imp f = None \<longleftrightarrow> fileCategory f \<notin> Some ` set validComponentCategories"
  by (auto simp: candidate_def split: option.splits)

lemma split_takeWhile:
  "(case split sep s of [] \<Rightarrow> [] | part # _ \<Rightarrow> part) = takeWhile (\<lambda>c. \<not> sep c) s"
  by (induction s) (auto split: list.splits)

lemma split_not_Nil: "split sep s \<noteq> []"
  by (induction s) (auto split: list.splits)

lemma componentName_takeWhile:
  "componentName f = takeWhile (\<lambda>c. c \<noteq> CHR ''.'') (walk_entry.name f)"
  by (simp add: componentName_def split_takeWhile)

lemma fetchComponents_probe_error:
  "readDirSync fs ''./src/components'' = Some err \<Longrightarrow>
     fetchComponents fs =
       (Inr [], if err = NotFound then [ConsoleWarn rootDirectoryMessage] else [])"
  by (simp add: fetchComponents_def)

lemma fetchComponents_scan:
  "readDirSync fs ''./src/components'' = None \<Longrightarrow> walk fs = Inr files \<Longrightarrow>
     fetchComponents fs = scanFiles (import_module fs) files []"
  by (simp add: fetchComponents_def)

lemma runComponent_empty:
  "runComponent call [] i w =
     (Resolved, [ConsoleWarn (notFoundMessage (custom_id (data i)))], w)"
  by (simp add: runComponent_def findComponent_def)

subsection \<open>The registry\<close>

text \<open>
  Claim C3. When the root directory can be read, the walk yields the files and every
  module loads, \<^verbatim>\<open>fetchComponents\<close> returns a registry:
  \<^item> no two of its records have the same name and category;
  \<^item> for every name and category, the record the registry holds for them is the first
    record with that name and category that the files yield in scan order (and there
    is none in the registry when no file yields one);
  \<^item> every file that yields a record with the name and category of a record of an
    earlier file is skipped with the duplicate warning, and the scan goes on;
  \<^item> every file either adds a record or prints one warning.

  Here the derived name is \<open>componentName\<close>; claim C9 is about what it is.
\<close>

theorem fetchComponents_first_wins:
  assumes "readDirSync fs ''./src/components'' = None"
    and "walk fs = Inr files"
    and "\<forall>f \<in> set files. \<exists>d. import_module fs (path f) = Inr d"
  shows "\<exists>comps log.
           fetchComponents fs = (Inr comps, log) \<and>
           distinct (map (\<lambda>c. (name c, category c)) comps) \<and>
           (\<forall>n cat. find (\<lambda>c. name c = n \<and> category c = cat) comps =
                    find (\<lambda>c. name c = n \<and> category c = cat)
                      (List.map_filter (candidate (import_module fs)) files)) \<and>
           (\<forall>pre f post r.
              files = pre @ f # post \<and> candidate (import_module fs) f = Some r \<and>
              (\<exists>r' \<in> set (List.map_filter (candidate (import_module fs)) pre).
                 name r' = name r \<and> category r' = category r) \<longrightarrow>
              ConsoleWarn (duplicateMessage r) \<in> set log) \<and>
           length comps + length log = length files"
proof -
  let ?imp = "import_module fs"
  from scanFiles_ok [OF assms(3), of "[]"] obtain comps log
    where run: "scanFiles ?imp files [] = (Inr comps, log)" by blast
  have fetch: "fetchComponents fs = (Inr comps, log)"
    using fetchComponents_scan [OF assms(1,2)] run by simp
  have keys: "distinct (map (\<lambda>c. (name c, category c)) comps)"
    using scanFiles_distinct [OF run] by simp
  have first: "find (\<lambda>c. name c = n \<and> category c = cat) comps =
      find (\<lambda>c. name c = n \<and> category c = cat) (List.map_filter (candidate ?imp) files)"
    for n cat
    using scanFiles_find [OF run, of n cat] by simp
  have dup: "ConsoleWarn (duplicateMessage r) \<in> set log"
    if "files = pre @ f # post" "candidate ?imp f = Some r"
      "\<exists>r' \<in> set (List.map_filter (candidate ?imp) pre).
         name r' = name r \<and> category r' = category r"
    for pre f post r
    using scanFiles_duplicate_warning [of ?imp pre f post "[]" comps log r] run that
    by simp
  have count: "length comps + length log = length files"
    using scanFiles_length [OF run] by simp
  from fetch keys first dup count show ?thesis
    by blast
qed

text \<open>Two files named \<open>foo.ts\<close> under \<open>buttons\<close>, the second in a subdirectory: the
  registry holds the callback of the first.\<close>

theorem fetchComponents_first_wins_witness:
  "fetchComponents
     \<lparr> readDirSync = (\<lambda>p. None),
       walk = Inr [\<lparr> path = ''src/components/buttons/foo.ts'', name = ''foo.ts'' \<rparr>,
                   \<lparr> path = ''src/components/buttons/more/foo.ts'', name = ''foo.ts'' \<rparr>],
       import_module = (\<lambda>p. if p = ''src/components/buttons/foo.ts''
                              then Inr (1::nat) else Inr 2) \<rparr> =
   (Inr [\<lparr> name = ''foo'', category = ''buttons'', default = 1 \<rparr>],
    [ConsoleWarn '' ! Button component \"foo\" already exists, skipping the duplicate''
       :: (nat, string) event])"
proof -
  let ?f1 = "\<lparr> path = ''src/components/buttons/foo.ts'', name = ''foo.ts'' \<rparr>"
  let ?f2 = "\<lparr> path = ''src/components/buttons/more/foo.ts'', name = ''foo.ts'' \<rparr>"
  let ?imp = "\<lambda>p. if p = ''src/components/buttons/foo.ts''
                    then (Inr (1::nat) :: string + nat) else Inr 2"
  let ?fs = "\<lparr> readDirSync = (\<lambda>p. None), walk = Inr [?f1, ?f2], import_module = ?imp \<rparr>"
  have root: "readDirSync ?fs ''./src/components'' = None" by simp
  have files: "walk ?fs = Inr [?f1, ?f2]" by simp
  have loads: "\<forall>f \<in> set [?f1, ?f2]. \<exists>d. import_module ?fs (path f) = Inr d" by simp
  have upper: "toUpperCase ''b'' = ''B''"
    by code_simp
  have run: "fetchComponents ?fs =
      (Inr [\<lparr> name = ''foo'', category = ''buttons'', default = 1 \<rparr>],
       [ConsoleWarn '' ! Button component \"foo\" already exists, skipping the duplicate''])"
    by (simp add: fetchComponents_def scanFiles.simps(2) Let_def fileCategory_def at_index_def
        componentName_def validComponentCategories_def duplicateMessage_def
        upper warned_def)
  from fetchComponents_first_wins [OF root files loads] obtain comps log
    where "fetchComponents ?fs = (Inr comps, log)"
      and "distinct (map (\<lambda>c. (name c, category c)) comps)"
    by blast
  with run show ?thesis
    by simp
qed

subsection \<open>Failures at start-up\<close>

text \<open>
  Claim C4. When the root directory can be read and the import of one of the walked files
  throws, \<^verbatim>\<open>fetchComponents\<close> and \<^verbatim>\<open>setupComponents\<close> are rejected with the error
  of an import of one of these files: no dispatcher is returned, and the last thing \<^verbatim>\<open>setupComponents\<close> does is to put its loader in
  the error state.
\<close>

theorem setupComponents_import_failure:
  assumes "readDirSync fs ''./src/components'' = None"
    and "walk fs = Inr files"
    and "f \<in> set files"
    and "import_module fs (path f) = Inl e"
  shows "\<exists>e' f'. f' \<in> set files \<and> import_module fs (path f') = Inl e' \<and>
           fst (fetchComponents fs) = Inl e' \<and>
           fst (setupComponents call fs) = Inl e' \<and>
           last (snd (setupComponents call fs)) = LoaderError ''Generating components''"
proof -
  from scanFiles_fails [of f files "import_module fs" e "[]"] assms(3,4) obtain e' f'
    where f': "f' \<in> set files" "import_module fs (path f') = Inl e'"
      and scan: "fst (scanFiles (import_module fs) files []) = Inl e'"
    by blast
  from scan have fetch: "fst (fetchComponents fs) = Inl e'"
    by (simp add: fetchComponents_scan [OF assms(1,2)])
  then have "fst (setupComponents call fs) = Inl e'"
    and "last (snd (setupComponents call fs)) = LoaderError ''Generating components''"
    by (auto simp: setupComponents_def Let_def split: prod.split sum.split)
  with f' fetch show ?thesis
    by blast
qed

text \<open>The first module loads, the second throws.\<close>

theorem setupComponents_import_failure_witness:
  "fst (setupComponents (\<lambda>cb i w. (Value :: string outcome, w :: unit))
     \<lparr> readDirSync = (\<lambda>p. None),
       walk = Inr [\<lparr> path = ''src/components/buttons/ok.ts'', name = ''ok.ts'' \<rparr>,
                   \<lparr> path = ''src/components/modals/bad.ts'', name = ''bad.ts'' \<rparr>],
       import_module = (\<lambda>p. if p = ''src/components/modals/bad.ts''
                              then Inl ''SyntaxError'' else Inr (1::nat)) \<rparr>) =
   Inl ''SyntaxError''"
proof -
  let ?ok = "\<lparr> path = ''src/components/buttons/ok.ts'', name = ''ok.ts'' \<rparr>"
  let ?bad = "\<lparr> path = ''src/components/modals/bad.ts'', name = ''bad.ts'' \<rparr>"
  let ?imp = "\<lambda>p. if p = ''src/components/modals/bad.ts''
                    then (Inl ''SyntaxError'' :: string + nat) else Inr 1"
  let ?fs = "\<lparr> readDirSync = (\<lambda>p. None), walk = Inr [?ok, ?bad], import_module = ?imp \<rparr>"
  let ?call = "\<lambda>(cb::nat) (i::interaction) (w::unit). (Value :: string outcome, w)"
  have root: "readDirSync ?fs ''./src/components'' = None" by simp
  have files: "walk ?fs = Inr [?ok, ?bad]" by simp
  have member: "?bad \<in> set [?ok, ?bad]" by simp
  have fails: "import_module ?fs (path ?bad) = Inl ''SyntaxError''" by simp
  from setupComponents_import_failure [OF root files member fails, of ?call]
  obtain e' f' where "f' \<in> set [?ok, ?bad]" "import_module ?fs (path f') = Inl e'"
    and "fst (setupComponents ?call ?fs) = Inl e'"
    by blast
  then show ?thesis
    by (auto split: if_splits)
qed

lemma generatedListing_Nil: "generatedListing [] = CHR 0x0A # ''Component''"
  by (simp add: generatedListing_def)

text \<open>
  Claim C6. When reading the root directory fails with the not-found error,
  \<^verbatim>\<open>fetchComponents\<close> prints the warning and returns the empty registry, and
  \<^verbatim>\<open>setupComponents\<close> is fulfilled with a dispatcher: it is \<^verbatim>\<open>runComponent\<close> over
  the empty registry, which answers every interaction with the not-found notice and a
  resolved promise.
\<close>

theorem setupComponents_missing_root:
  assumes "readDirSync fs ''./src/components'' = Some NotFound"
  shows "fetchComponents fs = (Inr [], [ConsoleWarn rootDirectoryMessage]) \<and>
         setupComponents call fs =
           (Inr (runComponent call []),
            [LoaderStart ''Generating components'', ConsoleWarn rootDirectoryMessage,
             LoaderResolve ''Generating components'', ConsoleLog (CHR 0x0A # ''Component'')]) \<and>
         (\<forall>i w. runComponent call [] i w =
                  (Resolved, [ConsoleWarn (notFoundMessage (custom_id (data i)))], w))"
  using fetchComponents_probe_error [OF assms]
  by (simp add: setupComponents_def runComponent_empty Let_def generatedListing_Nil)

text \<open>A file system without \<^verbatim>\<open>./src/components\<close>.\<close>

theorem setupComponents_missing_root_witness:
  "fetchComponents
     \<lparr> readDirSync = (\<lambda>p. Some NotFound), walk = Inr [],
       import_module = (\<lambda>p. Inl ''unused'' :: string + nat) \<rparr> =
   (Inr [], [ConsoleWarn '' ! src/components directory not found'']) \<and>
   fst (setupComponents (\<lambda>cb i w. (Value :: string outcome, w :: unit))
     \<lparr> readDirSync = (\<lambda>p. Some NotFound), walk = Inr [],
       import_module = (\<lambda>p. Inl ''unused'' :: string + nat) \<rparr>) =
   Inr (runComponent (\<lambda>cb i w. (Value, w)) [])"
proof -
  let ?fs = "\<lparr> readDirSync = (\<lambda>p. Some NotFound), walk = Inr [],
       import_module = (\<lambda>p. Inl ''unused'' :: string + nat) \<rparr>"
  let ?call = "\<lambda>(cb::nat) (i::interaction) (w::unit). (Value :: string outcome, w)"
  have root: "readDirSync ?fs ''./src/components'' = Some NotFound" by simp
  show ?thesis
    using setupComponents_missing_root [OF root, of ?call]
    by (simp add: rootDirectoryMessage_def)
qed

text \<open>
  Claim C10. Whatever error reading the root directory fails with, \<^verbatim>\<open>fetchComponents\<close>
  returns the empty registry and \<^verbatim>\<open>setupComponents\<close> is fulfilled with the dispatcher
  over it. The warning is printed exactly when the error is the not-found error; with
  any other error \<^verbatim>\<open>fetchComponents\<close> prints nothing, and all that start-up prints is
  its loader and the empty listing.
\<close>

theorem fetchComponents_any_probe_error:
  assumes "readDirSync fs ''./src/components'' = Some err"
  shows "fetchComponents fs =
           (Inr [], if err = NotFound then [ConsoleWarn rootDirectoryMessage] else []) \<and>
         fst (setupComponents call fs) = Inr (runComponent call []) \<and>
         (err \<noteq> NotFound \<longrightarrow>
            snd (setupComponents call fs) =
              [LoaderStart ''Generating components'',
               LoaderResolve ''Generating components'', ConsoleLog (CHR 0x0A # ''Component'')])"
  using fetchComponents_probe_error [OF assms]
  by (simp add: setupComponents_def Let_def generatedListing_Nil)

text \<open>Reading \<^verbatim>\<open>./src/components\<close> fails with a permission error.\<close>

theorem fetchComponents_any_probe_error_witness:
  "fetchComponents
     \<lparr> readDirSync = (\<lambda>p. Some PermissionDenied), walk = Inr [],
       import_module = (\<lambda>p. Inl ''unused'' :: string + nat) \<rparr> = (Inr [], []) \<and>
   setupComponents (\<lambda>cb i w. (Value :: string outcome, w :: unit))
     \<lparr> readDirSync = (\<lambda>p. Some PermissionDenied), walk = Inr [],
       import_module = (\<lambda>p. Inl ''unused'' :: string + nat) \<rparr> =
   (Inr (runComponent (\<lambda>cb i w. (Value, w)) []),
    [LoaderStart ''Generating components'', LoaderResolve ''Generating components'',
     ConsoleLog [CHR 0x0A, CHR ''C'', CHR ''o'', CHR ''m'', CHR ''p'', CHR ''o'', CHR ''n'',
       CHR ''e'', CHR ''n'', CHR ''t'']])"
proof -
  let ?fs = "\<lparr> readDirSync = (\<lambda>p. Some PermissionDenied), walk = Inr [],
       import_module = (\<lambda>p. Inl ''unused'' :: string + nat) \<rparr>"
  let ?call = "\<lambda>(cb::nat) (i::interaction) (w::unit). (Value :: string outcome, w)"
  have root: "readDirSync ?fs ''./src/components'' = Some PermissionDenied" by simp
  show ?thesis
    using fetchComponents_any_probe_error [OF root, of ?call]
    by (simp add: prod_eq_iff)
qed

subsection \<open>Files outside the three categories\<close>

text \<open>
  Claim C7 says that every eligible file whose category segment is not a valid category
  is skipped with a warning and without a fatal error. The module of a file is imported
  (line 136) before its category is looked at (line 147): for a file directly under the
  root whose import throws, no warning is printed and start-up is rejected.
\<close>

theorem unknown_category_failing_import:
  "fileCategory \<lparr> path = ''src/components/top.ts'', name = ''top.ts'' \<rparr> = Some ''top.ts'' \<and>
   ''top.ts'' \<notin> set validComponentCategories \<and>
   fetchComponents
     \<lparr> readDirSync = (\<lambda>p. None),
       walk = Inr [\<lparr> path = ''src/components/top.ts'', name = ''top.ts'' \<rparr>],
       import_module = (\<lambda>p. Inl ''SyntaxError'' :: string + nat) \<rparr> =
   (Inl ''SyntaxError'', []) \<and>
   fst (setupComponents (\<lambda>cb i w. (Value :: string outcome, w :: unit))
     \<lparr> readDirSync = (\<lambda>p. None),
       walk = Inr [\<lparr> path = ''src/components/top.ts'', name = ''top.ts'' \<rparr>],
       import_module = (\<lambda>p. Inl ''SyntaxError'' :: string + nat) \<rparr>) =
   Inl ''SyntaxError''"
  by (simp add: fetchComponents_def setupComponents_def scanFiles.simps(2) fileCategory_def
      at_index_def validComponentCategories_def Let_def)

text \<open>
  Claim C7, amended. A file whose third path segment is not a valid category, whose
  module loads and which is reached by the scan (the modules of the files before it
  load) contributes no record: the registry, or the error of a later import, is what
  it would be without the file. The warning for the file is printed, and when the
  modules of the files after it load as well, a registry is returned.
\<close>

theorem unknown_category_skipped:
  assumes "readDirSync fs ''./src/components'' = None"
    and "walk fs = Inr (pre @ f # post)"
    and "\<forall>p \<in> set pre. \<exists>d. import_module fs (path p) = Inr d"
    and "import_module fs (path f) = Inr d"
    and "fileCategory f \<notin> Some ` set validComponentCategories"
  shows "fst (fetchComponents fs) = fst (fetchComponents (fs\<lparr> walk := Inr (pre @ post) \<rparr>)) \<and>
         ConsoleWarn (undeterminedMessage (componentName f)) \<in> set (snd (fetchComponents fs)) \<and>
         ((\<forall>p \<in> set post. \<exists>d. import_module fs (path p) = Inr d) \<longrightarrow>
            (\<exists>comps. fst (fetchComponents fs) = Inr comps))"
proof -
  let ?imp = "import_module fs"
  from assms(4,5) have none: "candidate ?imp f = None"
    by (simp add: candidate_None_iff)
  have with_f: "fetchComponents fs = scanFiles ?imp (pre @ f # post) []"
    using assms(1,2) by (simp add: fetchComponents_scan)
  have without_f: "fetchComponents (fs\<lparr> walk := Inr (pre @ post) \<rparr>) = scanFiles ?imp (pre @ post) []"
    using assms(1) by (simp add: fetchComponents_def)
  have same: "fst (fetchComponents fs) = fst (fetchComponents (fs\<lparr> walk := Inr (pre @ post) \<rparr>))"
    using scanFiles_skip [OF assms(4) none, of pre post "[]"] with_f without_f by simp
  have warning: "ConsoleWarn (undeterminedMessage (componentName f)) \<in> set (snd (fetchComponents fs))"
    using scanFiles_skip_warning [OF assms(3,4) none, of post "[]"] with_f by simp
  have goes_on: "\<exists>comps. fst (fetchComponents fs) = Inr comps"
    if "\<forall>p \<in> set post. \<exists>d. import_module fs (path p) = Inr d"
  proof -
    from assms(3,4) that have "\<forall>p \<in> set (pre @ f # post). \<exists>d. ?imp (path p) = Inr d"
      by auto
    from scanFiles_ok [OF this, of "[]"] with_f show ?thesis
      by auto
  qed
  from same warning goes_on show ?thesis
    by blast
qed

text \<open>A file directly under the root, between a button and a modal handler.\<close>

theorem unknown_category_skipped_witness:
  "fetchComponents
     \<lparr> readDirSync = (\<lambda>p. None),
       walk = Inr [\<lparr> path = ''src/components/buttons/ok.ts'', name = ''ok.ts'' \<rparr>,
                   \<lparr> path = ''src/components/top.ts'', name = ''top.ts'' \<rparr>,
                   \<lparr> path = ''src/components/modals/form.ts'', name = ''form.ts'' \<rparr>],
       import_module = (\<lambda>p. Inr (length p) :: string + nat) \<rparr> =
   (Inr [\<lparr> name = ''ok'', category = ''buttons'', default = 28 \<rparr>,
         \<lparr> name = ''form'', category = ''modals'', default = 29 \<rparr>],
    [ConsoleWarn '' ! Category for \"top\" could not be determined, skipping''])"
proof -
  let ?ok = "\<lparr> path = ''src/components/buttons/ok.ts'', name = ''ok.ts'' \<rparr>"
  let ?top = "\<lparr> path = ''src/components/top.ts'', name = ''top.ts'' \<rparr>"
  let ?form = "\<lparr> path = ''src/components/modals/form.ts'', name = ''form.ts'' \<rparr>"
  let ?imp = "\<lambda>p. Inr (length p) :: string + nat"
  let ?fs = "\<lparr> readDirSync = (\<lambda>p. None), walk = Inr [?ok, ?top, ?form], import_module = ?imp \<rparr>"
  have root: "readDirSync ?fs ''./src/components'' = None" by simp
  have files: "walk ?fs = Inr ([?ok] @ ?top # [?form])" by simp
  have before: "\<forall>p \<in> set [?ok]. \<exists>d. import_module ?fs (path p) = Inr d" by simp
  have loads: "import_module ?fs (path ?top) = Inr 21" by simp
  have invalid: "fileCategory ?top \<notin> Some ` set validComponentCategories"
    by (simp add: fileCategory_def at_index_def validComponentCategories_def)
  have without: "fetchComponents (?fs\<lparr> walk := Inr ([?ok] @ [?form]) \<rparr>) =
      (Inr [\<lparr> name = ''ok'', category = ''buttons'', default = 28 \<rparr>,
            \<lparr> name = ''form'', category = ''modals'', default = 29 \<rparr>], [])"
    by (simp add: fetchComponents_def scanFiles.simps(2) Let_def fileCategory_def at_index_def
        componentName_def validComponentCategories_def)
  have log: "snd (fetchComponents ?fs) =
      [ConsoleWarn '' ! Category for \"top\" could not be determined, skipping'']"
    by (simp add: fetchComponents_def scanFiles.simps(2) Let_def fileCategory_def at_index_def
        componentName_def validComponentCategories_def warned_def undeterminedMessage_def)
  from unknown_category_skipped [OF root files before loads invalid]
  have "fst (fetchComponents ?fs) = fst (fetchComponents (?fs\<lparr> walk := Inr ([?ok] @ [?form]) \<rparr>))"
    by blast
  with without log show ?thesis
    by (simp add: prod_eq_iff)
qed

subsection \<open>The name of a record\<close>

text \<open>
  The name is \<^verbatim>\<open>file.name.split(".")[0]\<close>. For a base name with a single dot, as
  \<open>foo.ts\<close>, that is the base name with its extension stripped.
\<close>

lemma takeWhile_before_separator:
  "sep \<notin> set stem \<Longrightarrow> takeWhile (\<lambda>ch. ch \<noteq> sep) (stem @ sep # ext) = stem"
  by (induction stem) auto

lemma componentName_single_dot:
  "walk_entry.name f = stem @ CHR ''.'' # ext \<Longrightarrow> CHR ''.'' \<notin> set stem \<Longrightarrow>
     componentName f = stem"
  by (simp add: componentName_takeWhile takeWhile_before_separator)

text \<open>
  Claim C9. The name of a registry record is to be the base name of its file with the
  extension stripped, so that \<open>foo.bar.ts\<close> yields \<open>foo.bar\<close>. The code does not do that
  for a base name with more than one dot: it cuts at the first dot. The file
  \<open>foo.bar.ts\<close> is registered under the name \<open>foo\<close>, and of the two files
  \<open>confirm.delete.ts\<close> and \<open>confirm.archive.ts\<close> under \<open>buttons\<close> both get the name
  \<open>confirm\<close>, so that the second is dropped as a duplicate of the first.
\<close>

theorem componentName_multiple_dots:
  "componentName \<lparr> path = ''src/components/buttons/foo.bar.ts'', name = ''foo.bar.ts'' \<rparr> = ''foo'' \<and>
   fetchComponents
     \<lparr> readDirSync = (\<lambda>p. None),
       walk = Inr [\<lparr> path = ''src/components/buttons/foo.bar.ts'', name = ''foo.bar.ts'' \<rparr>],
       import_module = (\<lambda>p. Inr 1 :: string + nat) \<rparr> =
   (Inr [\<lparr> name = ''foo'', category = ''buttons'', default = 1 \<rparr>], []) \<and>
   ''foo'' \<noteq> ''foo.bar'' \<and>
   fetchComponents
     \<lparr> readDirSync = (\<lambda>p. None),
       walk = Inr [\<lparr> path = ''src/components/buttons/confirm.delete.ts'',
                     name = ''confirm.delete.ts'' \<rparr>,
                   \<lparr> path = ''src/components/buttons/confirm.archive.ts'',
                     name = ''confirm.archive.ts'' \<rparr>],
       import_module = (\<lambda>p. if p = ''src/components/buttons/confirm.delete.ts''
                              then Inr 1 else Inr 2 :: string + nat) \<rparr> =
   (Inr [\<lparr> name = ''confirm'', category = ''buttons'', default = 1 \<rparr>],
    [ConsoleWarn '' ! Button component \"confirm\" already exists, skipping the duplicate''])"
proof -
  have upper: "toUpperCase ''b'' = ''B''"
    by code_simp
  show ?thesis
    by (simp add: fetchComponents_def scanFiles.simps(2) fileCategory_def componentName_def
        at_index_def validComponentCategories_def Let_def duplicateMessage_def warned_def
        upper)
qed

end
